theory Spec2Isabelle
  imports Main
begin

section \<open>ChatToMusic backend: the job-completion notification core\<close>

text \<open>
  A shallow embedding of \<^verbatim>\<open>backend/src/index.ts\<close>: the two in-memory maps
  \<^verbatim>\<open>resultsStore\<close> and \<^verbatim>\<open>subscribers\<close>, the fan-out \<^verbatim>\<open>pushSSE\<close>, and the three
  route handlers \<^verbatim>\<open>GET /events\<close>, \<^verbatim>\<open>POST /suno/callback\<close> and \<^verbatim>\<open>GET /status\<close>.
  Handlers are functions from the state before to the state after, paired with what was
  answered; every \<^verbatim>\<open>throw\<close> is a value.
\<close>

subsection \<open>JavaScript values\<close>

text \<open>
  The values of type \<^verbatim>\<open>any\<close> the handlers touch come out of \<^verbatim>\<open>JSON.parse\<close> (the request
  body, the collaborator's answer), plus \<^verbatim>\<open>undefined\<close> for a missing property or array
  element. An object is its list of entries, read at the first entry of a key. Numbers
  are only tested for truthiness; integers stand for them.
\<close>

datatype json =
    JUndefined
  | JNull
  | JBool bool
  | JNum int
  | JStr string
  | JArr "json list"
  | JObj "(string \<times> json) list"

datatype exn = TypeError | WriteError | AxiosError

text \<open>\<^verbatim>\<open>Boolean(v)\<close>, the test behind \<^verbatim>\<open>!v\<close>, \<^verbatim>\<open>a || b\<close> and \<^verbatim>\<open>filter(Boolean)\<close>.\<close>

fun truthy :: "json \<Rightarrow> bool" where
  "truthy JUndefined = False"
| "truthy JNull = False"
| "truthy (JBool b) = b"
| "truthy (JNum n) = (n \<noteq> 0)"
| "truthy (JStr s) = (s \<noteq> [])"
| "truthy (JArr xs) = True"
| "truthy (JObj kvs) = True"

definition js_or :: "json \<Rightarrow> json \<Rightarrow> json" where
  "js_or a b = (if truthy a then a else b)"

text \<open>
  \<^verbatim>\<open>v.k\<close> for the property names the handlers read (\<^verbatim>\<open>data\<close>, \<^verbatim>\<open>task_id\<close>, \<^verbatim>\<open>clips\<close>,
  \<^verbatim>\<open>status\<close>, \<^verbatim>\<open>id\<close>, \<^verbatim>\<open>clipId\<close>): a TypeError on \<^verbatim>\<open>undefined\<close> and \<^verbatim>\<open>null\<close>, the entry of
  an object, and \<^verbatim>\<open>undefined\<close> on a primitive or an array, none of which has such a
  property. \<^verbatim>\<open>v?.k\<close> yields \<^verbatim>\<open>undefined\<close> instead of throwing.
\<close>

fun get_prop :: "json \<Rightarrow> string \<Rightarrow> exn + json" where
  "get_prop JUndefined k = Inl TypeError"
| "get_prop JNull k = Inl TypeError"
| "get_prop (JObj kvs) k = Inr (case map_of kvs k of None \<Rightarrow> JUndefined | Some v \<Rightarrow> v)"
| "get_prop v k = Inr JUndefined"

fun opt_prop :: "json \<Rightarrow> string \<Rightarrow> json" where
  "opt_prop JUndefined k = JUndefined"
| "opt_prop JNull k = JUndefined"
| "opt_prop (JObj kvs) k = (case map_of kvs k of None \<Rightarrow> JUndefined | Some v \<Rightarrow> v)"
| "opt_prop v k = JUndefined"

text \<open>\<^verbatim>\<open>xs[0]\<close> on an array: \<^verbatim>\<open>undefined\<close> when the array is empty.\<close>

fun first :: "json list \<Rightarrow> json" where
  "first [] = JUndefined"
| "first (x # xs) = x"

subsection \<open>Query parameters\<close>

text \<open>
  \<^verbatim>\<open>((req.query.p as string) || '').split(',').map(i => i.trim()).filter(Boolean)\<close>.
  The parameter is absent or a string. A string is the list of its UTF-8 bytes.
  \<^verbatim>\<open>trim\<close> strips white space and line terminators from both ends: tab, LF, VT, FF, CR
  and space, which are one byte each, U+00A0, which is two, and U+1680, U+2000 to U+200A,
  U+2028, U+2029, U+202F, U+205F, U+3000 and U+FEFF, which are three. The end of the string
  is trimmed on the reversed string, last byte first.
\<close>

fun split_on :: "char \<Rightarrow> string \<Rightarrow> string list" where
  "split_on c [] = [[]]"
| "split_on c (x # xs) =
     (if x = c then [] # split_on c xs
      else (case split_on c xs of [] \<Rightarrow> [[x]] | w # ws \<Rightarrow> (x # w) # ws))"

definition is_space :: "char \<Rightarrow> bool" where
  "is_space c = (c \<in> set [CHR 0x09, CHR 0x0A, CHR 0x0B, CHR 0x0C, CHR 0x0D, CHR 0x20])"

definition is_space2 :: "char \<Rightarrow> char \<Rightarrow> bool" where
  "is_space2 a b = (a = CHR 0xC2 \<and> b = CHR 0xA0)"

definition is_space3 :: "char \<Rightarrow> char \<Rightarrow> char \<Rightarrow> bool" where
  "is_space3 a b c =
     ((a = CHR 0xE1 \<and> b = CHR 0x9A \<and> c = CHR 0x80)
      \<or> (a = CHR 0xE2 \<and> b = CHR 0x80
          \<and> c \<in> set [CHR 0x80, CHR 0x81, CHR 0x82, CHR 0x83, CHR 0x84, CHR 0x85, CHR 0x86,
                      CHR 0x87, CHR 0x88, CHR 0x89, CHR 0x8A, CHR 0xA8, CHR 0xA9, CHR 0xAF])
      \<or> (a = CHR 0xE2 \<and> b = CHR 0x81 \<and> c = CHR 0x9F)
      \<or> (a = CHR 0xE3 \<and> b = CHR 0x80 \<and> c = CHR 0x80)
      \<or> (a = CHR 0xEF \<and> b = CHR 0xBB \<and> c = CHR 0xBF))"

fun trim_start :: "string \<Rightarrow> string" where
  "trim_start (a # b # c # s) =
     (if is_space a then trim_start (b # c # s)
      else if is_space2 a b then trim_start (c # s)
      else if is_space3 a b c then trim_start s
      else a # b # c # s)"
| "trim_start [a, b] =
     (if is_space a then trim_start [b] else if is_space2 a b then [] else [a, b])"
| "trim_start [a] = (if is_space a then [] else [a])"
| "trim_start [] = []"

fun trim_end_rev :: "string \<Rightarrow> string" where
  "trim_end_rev (c # b # a # s) =
     (if is_space c then trim_end_rev (b # a # s)
      else if is_space2 b c then trim_end_rev (a # s)
      else if is_space3 a b c then trim_end_rev s
      else c # b # a # s)"
| "trim_end_rev [c, b] =
     (if is_space c then trim_end_rev [b] else if is_space2 b c then [] else [c, b])"
| "trim_end_rev [c] = (if is_space c then [] else [c])"
| "trim_end_rev [] = []"

definition trim :: "string \<Rightarrow> string" where
  "trim s = rev (trim_end_rev (rev (trim_start s)))"

definition parse_ids :: "string option \<Rightarrow> string list" where
  "parse_ids q =
     filter (\<lambda>i. i \<noteq> [])
       (map trim (split_on CHR '','' (case q of None \<Rightarrow> [] | Some s \<Rightarrow> s)))"

text \<open>\<^verbatim>\<open>xs.join(',')\<close>.\<close>

fun join_comma :: "string list \<Rightarrow> string" where
  "join_comma [] = []"
| "join_comma [x] = x"
| "join_comma (x # y # ys) = x @ '','' @ join_comma (y # ys)"

subsection \<open>Server state\<close>

text \<open>
  A connection (the \<^verbatim>\<open>Response\<close> object of one \<^verbatim>\<open>/events\<close> request) is a number. A frame
  is the text \<^verbatim>\<open>event: E\ndata: JSON.stringify(D)\n\n\<close>, kept as the pair of \<open>E\<close> and \<open>D\<close>
  it is built from.

  \<open>resultsStore\<close> and \<open>subscribers\<close> are the two \<^verbatim>\<open>Map\<close>s; a key is the value handed to
  \<^verbatim>\<open>set\<close>, \<^verbatim>\<open>get\<close> and \<^verbatim>\<open>has\<close>, a string \<open>s\<close> being \<open>JStr s\<close>. Keys are compared as
  values, as \<^verbatim>\<open>Map\<close> compares strings, numbers and booleans. The lookups of \<^verbatim>\<open>/events\<close>
  and \<^verbatim>\<open>/status\<close> are by string, so an entry under an object or an array, which a
  webhook may supply as its \<^verbatim>\<open>task_id\<close>, is read by none of them. A store entry
  \<open>Some JUndefined\<close> is a key that is present with the value \<^verbatim>\<open>undefined\<close>. The arrays of
  \<open>subscribers\<close> are lists, in push order, with repetitions.

  Two fields stand for the connections' side: \<open>sent\<close> is the log of the frames that
  \<^verbatim>\<open>res.write\<close> has accepted, oldest first, and \<open>failing\<close> the connections on which
  \<^verbatim>\<open>res.write\<close> throws.
\<close>

type_synonym conn = nat

datatype frame = Frame string json

record state =
  resultsStore :: "json \<rightharpoonup> json"
  subscribers :: "json \<rightharpoonup> conn list"
  sent :: "(conn \<times> frame) list"
  failing :: "conn set"

definition init :: state where
  "init = \<lparr>resultsStore = Map.empty, subscribers = Map.empty, sent = [], failing = {}\<rparr>"

text \<open>What a handler did with its request.\<close>

datatype reply =
    Send nat string
  | JsonError nat string
  | JsonStatus "json list" "string list"
  | Streaming
  | NoReply
  | Threw exn

text \<open>
  \<^verbatim>\<open>xs.forEach(f)\<close> where \<open>f\<close> may throw: the loop stops at the first exception, and what
  the earlier iterations did stays done.
\<close>

fun forEach :: "('a \<Rightarrow> 's \<Rightarrow> exn option \<times> 's) \<Rightarrow> 'a list \<Rightarrow> 's \<Rightarrow> exn option \<times> 's" where
  "forEach f [] s = (None, s)"
| "forEach f (x # xs) s =
     (case f x s of
        (Some e, s') \<Rightarrow> (Some e, s')
      | (None, s') \<Rightarrow> forEach f xs s')"

definition res_write :: "conn \<Rightarrow> frame \<Rightarrow> state \<Rightarrow> exn option \<times> state" where
  "res_write res payload st =
     (if res \<in> failing st then (Some WriteError, st)
      else (None, st\<lparr>sent := sent st @ [(res, payload)]\<rparr>))"

subsection \<open>pushSSE\<close>

text \<open>The loop body \<^verbatim>\<open>try { res.write(payload); } catch (_) { }\<close>.\<close>

definition try_write :: "frame \<Rightarrow> conn \<Rightarrow> state \<Rightarrow> state" where
  "try_write payload res st = snd (res_write res payload st)"

definition pushSSE :: "json \<Rightarrow> string \<Rightarrow> json \<Rightarrow> state \<Rightarrow> state" where
  "pushSSE clipId event data st =
     (case subscribers st clipId of
        None \<Rightarrow> st
      | Some subs \<Rightarrow>
          (let st1 = fold (try_write (Frame event data)) subs st
           in if event = ''complete''
              then st1\<lparr>subscribers := (subscribers st1)(clipId := None)\<rparr>
              else st1))"

subsection \<open>GET /events\<close>

text \<open>The body of \<^verbatim>\<open>clipIds.forEach\<close> at attach time.\<close>

definition attach :: "conn \<Rightarrow> string \<Rightarrow> state \<Rightarrow> exn option \<times> state" where
  "attach res jid st =
     (case resultsStore st (JStr jid) of
        Some rec \<Rightarrow> res_write res (Frame ''complete'' rec) st
      | None \<Rightarrow>
          (let arr = (case subscribers st (JStr jid) of None \<Rightarrow> [] | Some a \<Rightarrow> a)
           in (None, st\<lparr>subscribers := (subscribers st)(JStr jid \<mapsto> arr @ [res])\<rparr>)))"

text \<open>
  The handler up to the registration of the \<^verbatim>\<open>close\<close> listener. \<open>Streaming\<close>: the headers
  are out, the loop is through and the listener is registered. An exception of the loop
  leaves the handler before \<^verbatim>\<open>req.on('close', ...)\<close>.
\<close>

definition events :: "string option \<Rightarrow> conn \<Rightarrow> state \<Rightarrow> state \<times> reply" where
  "events q res st =
     (let clipIds = parse_ids q
      in if clipIds = [] then (st, Send 400 ''clipIds query param required'')
         else (case forEach (attach res) clipIds st of
                 (Some e, st') \<Rightarrow> (st', Threw e)
               | (None, st') \<Rightarrow> (st', Streaming)))"

text \<open>The body of \<^verbatim>\<open>clipIds.forEach\<close> in the \<^verbatim>\<open>close\<close> listener, and the listener.\<close>

definition unsubscribe :: "conn \<Rightarrow> string \<Rightarrow> state \<Rightarrow> state" where
  "unsubscribe res jid st =
     (case subscribers st (JStr jid) of
        None \<Rightarrow> st
      | Some arr \<Rightarrow>
          (let filtered = filter (\<lambda>r. r \<noteq> res) arr
           in if length filtered > 0
              then st\<lparr>subscribers := (subscribers st)(JStr jid \<mapsto> filtered)\<rparr>
              else st\<lparr>subscribers := (subscribers st)(JStr jid := None)\<rparr>))"

definition on_close :: "string option \<Rightarrow> conn \<Rightarrow> state \<Rightarrow> state" where
  "on_close q res st = fold (unsubscribe res) (parse_ids q) st"

subsection \<open>POST /suno/callback\<close>

text \<open>\<^verbatim>\<open>payload?.data.task_id || payload?.task_id\<close>.\<close>

definition task_id_of :: "json \<Rightarrow> exn + json" where
  "task_id_of payload =
     (if payload = JUndefined \<or> payload = JNull then Inr JUndefined
      else (case get_prop payload ''data'' of
              Inl e \<Rightarrow> Inl e
            | Inr d \<Rightarrow>
                (case get_prop d ''task_id'' of
                   Inl e \<Rightarrow> Inl e
                 | Inr t \<Rightarrow> Inr (js_or t (opt_prop payload ''task_id'')))))"

text \<open>The object \<^verbatim>\<open>{ data: { data: [clips] } }\<close> handed to the fan-out.\<close>

definition wrap_clips :: "json list \<Rightarrow> json" where
  "wrap_clips clips = JObj [(''data'', JObj [(''data'', JArr [JArr clips])])]"

definition suno_callback :: "json \<Rightarrow> state \<Rightarrow> state \<times> reply" where
  "suno_callback payload st =
     (case opt_prop (opt_prop payload ''data'') ''data'' of
        JArr clips \<Rightarrow>
          (case task_id_of payload of
             Inl e \<Rightarrow> (st, Threw e)
           | Inr jid \<Rightarrow>
               if \<not> truthy jid then (st, NoReply)
               else (pushSSE jid ''complete'' (wrap_clips clips)
                       (st\<lparr>resultsStore := (resultsStore st)(jid \<mapsto> first clips)\<rparr>),
                     Send 200 ''OK''))
      | _ \<Rightarrow> (st, Send 400 ''Invalid callback''))"

subsection \<open>GET /status\<close>

text \<open>The first loop: \<^verbatim>\<open>found\<close> and \<^verbatim>\<open>pending\<close>, filled by \<^verbatim>\<open>push\<close> in the order of \<open>ids\<close>.\<close>

fun partition_ids :: "state \<Rightarrow> string list \<Rightarrow> json list \<times> string list \<Rightarrow> json list \<times> string list" where
  "partition_ids st [] (found, pending) = (found, pending)"
| "partition_ids st (jid # ids) (found, pending) =
     (case resultsStore st (JStr jid) of
        Some rec \<Rightarrow> partition_ids st ids (found @ [rec], pending)
      | None \<Rightarrow> partition_ids st ids (found, pending @ [jid]))"

text \<open>
  \<^verbatim>\<open>Array.isArray(r.data) ? r.data : r.data.clips || []\<close>, followed by the test that
  \<^verbatim>\<open>list.forEach\<close> makes: a value that is no array has no \<^verbatim>\<open>forEach\<close>.
\<close>

definition clip_list :: "json \<Rightarrow> exn + json list" where
  "clip_list rdata =
     (case rdata of
        JArr xs \<Rightarrow> Inr xs
      | _ \<Rightarrow>
          (case get_prop rdata ''clips'' of
             Inl e \<Rightarrow> Inl e
           | Inr c \<Rightarrow>
               (case js_or c (JArr []) of
                  JArr xs \<Rightarrow> Inr xs
                | _ \<Rightarrow> Inl TypeError)))"

text \<open>
  The body of \<^verbatim>\<open>list.forEach\<close>; the loop's state is the server state and \<^verbatim>\<open>found\<close>.
  Once \<^verbatim>\<open>clip.status\<close> has been read without a TypeError, \<^verbatim>\<open>clip.id\<close> and \<^verbatim>\<open>clip.clipId\<close>
  are read without one.
\<close>

definition backfill :: "json \<Rightarrow> state \<times> json list \<Rightarrow> exn option \<times> state \<times> json list" where
  "backfill clip sf =
     (case sf of (st, found) \<Rightarrow>
        (case get_prop clip ''status'' of
           Inl e \<Rightarrow> (Some e, st, found)
         | Inr s \<Rightarrow>
             if s = JStr ''complete''
             then (let jid = js_or (opt_prop clip ''id'') (opt_prop clip ''clipId'')
                   in if \<not> truthy jid then (None, st, found)
                      else (None,
                            pushSSE jid ''complete'' clip
                              (st\<lparr>resultsStore := (resultsStore st)(jid \<mapsto> clip)\<rparr>),
                            found @ [clip]))
             else (None, st, found)))"

text \<open>
  The handler from the return of \<^verbatim>\<open>await axios.get(...)\<close> on: \<open>r\<close> is the exception the
  call threw or the \<^verbatim>\<open>data\<close> of its answer. Every exception of the \<^verbatim>\<open>try\<close> block ends in
  its \<^verbatim>\<open>catch\<close>, which logs, and \<^verbatim>\<open>res.json({ found, pending })\<close> follows.
\<close>

definition status_resume :: "exn + json \<Rightarrow> json list \<Rightarrow> string list \<Rightarrow> state \<Rightarrow> state \<times> reply" where
  "status_resume r found pending st =
     (case r of
        Inl e \<Rightarrow> (st, JsonStatus found pending)
      | Inr rdata \<Rightarrow>
          (case clip_list rdata of
             Inl e \<Rightarrow> (st, JsonStatus found pending)
           | Inr list \<Rightarrow>
               (case forEach backfill list (st, found) of
                  (_, st', found') \<Rightarrow> (st', JsonStatus found' pending))))"

definition SUNO_API_BASE_URL :: string where
  "SUNO_API_BASE_URL = ''https://api.sunoapi.org''"

text \<open>The URL \<^verbatim>\<open>`${SUNO_API_BASE_URL}/api/v1/get?ids=${pending.join(',')}`\<close>.\<close>

definition status_url :: "string list \<Rightarrow> string" where
  "status_url pending = SUNO_API_BASE_URL @ ''/api/v1/get?ids='' @ join_comma pending"

text \<open>
  The whole handler, \<open>axios_get\<close> being the collaborator: from the URL of the request to
  the exception or the answer's \<^verbatim>\<open>data\<close>. No other handler runs during the \<^verbatim>\<open>await\<close>.
\<close>

definition status :: "(string \<Rightarrow> exn + json) \<Rightarrow> string option \<Rightarrow> state \<Rightarrow> state \<times> reply" where
  "status axios_get q st =
     (let ids = parse_ids q
      in if ids = [] then (st, JsonError 400 ''ids query required'')
         else (case partition_ids st ids ([], []) of
                 (found, pending) \<Rightarrow>
                   if length pending > 0
                   then status_resume (axios_get (status_url pending)) found pending st
                   else (st, JsonStatus found pending)))"

section \<open>Notions used in the statements\<close>

text \<open>
  The listeners registered under a key (none when the key is absent), and the frames
  written between a state and a later one.
\<close>

definition listeners :: "state \<Rightarrow> json \<Rightarrow> conn list" where
  "listeners st k = (case subscribers st k of None \<Rightarrow> [] | Some arr \<Rightarrow> arr)"

definition new_sent :: "state \<Rightarrow> state \<Rightarrow> (conn \<times> frame) list" where
  "new_sent st st' = drop (length (sent st)) (sent st')"

text \<open>
  The frames an attach request for \<open>ids\<close> finds ready in the store: one for each
  occurrence of an identifier that has a record, in the order of the request.
\<close>

definition delivered_at_attach :: "state \<Rightarrow> conn \<Rightarrow> string list \<Rightarrow> (conn \<times> frame) list" where
  "delivered_at_attach st res ids =
     List.map_filter
       (\<lambda>jid. map_option (\<lambda>rec. (res, Frame ''complete'' rec)) (resultsStore st (JStr jid))) ids"

text \<open>
  The records the store holds for \<open>ids\<close>, and the identifiers among \<open>ids\<close> it holds none
  for, both in the order of \<open>ids\<close>.
\<close>

definition known :: "state \<Rightarrow> string list \<Rightarrow> json list" where
  "known st ids = List.map_filter (\<lambda>jid. resultsStore st (JStr jid)) ids"

definition unresolved :: "state \<Rightarrow> string list \<Rightarrow> string list" where
  "unresolved st ids = filter (\<lambda>jid. resultsStore st (JStr jid) = None) ids"

text \<open>
  An entry of the collaborator's answer is reported complete when its \<^verbatim>\<open>status\<close> is
  \<^verbatim>\<open>'complete'\<close> and \<^verbatim>\<open>clip.id || clip.clipId\<close> is truthy. The second loop of
  \<^verbatim>\<open>/status\<close> reaches the entries before the first \<^verbatim>\<open>null\<close>, where \<^verbatim>\<open>clip.status\<close> throws.
\<close>

definition not_nullish :: "json \<Rightarrow> bool" where
  "not_nullish v = (v \<noteq> JUndefined \<and> v \<noteq> JNull)"

definition job_id :: "json \<Rightarrow> json" where
  "job_id clip = js_or (opt_prop clip ''id'') (opt_prop clip ''clipId'')"

definition reported_complete :: "json \<Rightarrow> bool" where
  "reported_complete clip = (opt_prop clip ''status'' = JStr ''complete'' \<and> truthy (job_id clip))"

definition newly_found :: "json list \<Rightarrow> json list" where
  "newly_found list = filter reported_complete (takeWhile not_nullish list)"

text \<open>
  A connection is detached from an identifier when it is in no array under it and the
  identifier has no empty array. No key of the registry holds an empty array.
\<close>

text \<open>
  The entry of a key once a connection is taken out of its array: the array without the
  connection, and no entry when nothing is left.
\<close>

definition without :: "conn \<Rightarrow> state \<Rightarrow> json \<Rightarrow> conn list option" where
  "without res st k =
     (if filter (\<lambda>r. r \<noteq> res) (listeners st k) = [] then None
      else Some (filter (\<lambda>r. r \<noteq> res) (listeners st k)))"

definition detached :: "conn \<Rightarrow> string \<Rightarrow> state \<Rightarrow> bool" where
  "detached res j st =
     (subscribers st (JStr j) \<noteq> Some [] \<and> res \<notin> set (listeners st (JStr j)))"

definition no_empty_set :: "state \<Rightarrow> bool" where
  "no_empty_set st = (\<forall>k. subscribers st k \<noteq> Some [])"

text \<open>
  The states of the server: it starts with both maps empty; connections start and stop
  failing; and each handler runs to its end on the state it finds. \<^verbatim>\<open>/status\<close> enters at
  the return of its \<^verbatim>\<open>await\<close>, with the \<open>found\<close> and \<open>pending\<close> it computed before, on
  whatever state the handlers that ran meanwhile have left.
\<close>

inductive reachable :: "state \<Rightarrow> bool" where
  reach_init: "reachable init"
| reach_failing: "reachable st \<Longrightarrow> reachable (st\<lparr>failing := F\<rparr>)"
| reach_events: "reachable st \<Longrightarrow> reachable (fst (events q res st))"
| reach_close: "reachable st \<Longrightarrow> reachable (on_close q res st)"
| reach_callback: "reachable st \<Longrightarrow> reachable (fst (suno_callback payload st))"
| reach_status: "reachable st \<Longrightarrow> reachable (fst (status_resume r found pending st))"

section \<open>Concrete requests and states\<close>

text \<open>Three listeners under \<open>j\<close>, the second on a connection whose \<^verbatim>\<open>write\<close> throws.\<close>

definition three_listeners :: state where
  "three_listeners = init\<lparr>subscribers := [JStr ''j'' \<mapsto> [1, 2, 3]], failing := {2}\<rparr>"

text \<open>Two connections attached to \<open>j\<close>, each by a request that names \<open>j\<close> once.\<close>

definition two_listeners :: state where
  "two_listeners = fst (events (Some ''j'') 2 (fst (events (Some ''j'') 1 init)))"

text \<open>One connection attached to \<open>j\<close>, alone.\<close>

definition sole_listener :: state where
  "sole_listener = fst (events (Some ''j'') 1 init)"

text \<open>One connection attached by the request \<^verbatim>\<open>GET /events?clipIds=j,j\<close>.\<close>

definition attached_twice :: state where
  "attached_twice = fst (events (Some ''j,j'') 1 init)"

text \<open>The webhook body \<^verbatim>\<open>{data: {task_id: "j", data: [[{id: "c1", title: "Song"}]]}}\<close>.\<close>

definition song_payload :: json where
  "song_payload =
     JObj [(''data'', JObj [(''task_id'', JStr ''j''),
       (''data'', JArr [JArr [JObj [(''id'', JStr ''c1''), (''title'', JStr ''Song'')]]])])]"

text \<open>
  The webhook body \<^verbatim>\<open>{data: {task_id: "a", data: [[{id: "ca", title: "A"}]]}}\<close>, the
  record the handler stores for it, and the state after it from the start.
\<close>

definition a_payload :: json where
  "a_payload =
     JObj [(''data'', JObj [(''task_id'', JStr ''a''),
       (''data'', JArr [JArr [JObj [(''id'', JStr ''ca''), (''title'', JStr ''A'')]]])])]"

definition a_record :: json where
  "a_record = JArr [JObj [(''id'', JStr ''ca''), (''title'', JStr ''A'')]]"

definition resolved_a :: state where
  "resolved_a = fst (suno_callback a_payload init)"

text \<open>A second webhook for \<open>a\<close>: \<^verbatim>\<open>{data: {task_id: "a", data: [[{id: "cz", title: "Z"}]]}}\<close>.\<close>

definition a_again_payload :: json where
  "a_again_payload =
     JObj [(''data'', JObj [(''task_id'', JStr ''a''),
       (''data'', JArr [JArr [JObj [(''id'', JStr ''cz''), (''title'', JStr ''Z'')]]])])]"

text \<open>
  A collaborator that answers the query for \<open>b\<close> with
  \<^verbatim>\<open>[{id: "b", status: "complete", title: "B"}]\<close>, and one whose every call fails.
\<close>

definition b_clip :: json where
  "b_clip = JObj [(''id'', JStr ''b''), (''status'', JStr ''complete''), (''title'', JStr ''B'')]"

definition b_complete :: "string \<Rightarrow> exn + json" where
  "b_complete url =
     (if url = ''https://api.sunoapi.org/api/v1/get?ids=b'' then Inr (JArr [b_clip])
      else Inl AxiosError)"

definition unavailable :: "string \<Rightarrow> exn + json" where
  "unavailable url = Inl AxiosError"

text \<open>
  The webhook bodies \<^verbatim>\<open>{data: {data: [[{id: "c1"}]]}}\<close>, which has a clip list and no
  \<^verbatim>\<open>task_id\<close>, and \<^verbatim>\<open>{data: {task_id: "j", data: []}}\<close>, whose clip list is empty.
\<close>

definition no_id_payload :: json where
  "no_id_payload = JObj [(''data'', JObj [(''data'', JArr [JArr [JObj [(''id'', JStr ''c1'')]]])])]"

definition empty_payload :: json where
  "empty_payload = JObj [(''data'', JObj [(''task_id'', JStr ''j''), (''data'', JArr [])])]"

section \<open>Lemmas\<close>

subsection \<open>The fan-out\<close>

lemma fold_try_write:
  "fold (try_write p) subs st =
     st\<lparr>sent := sent st @ map (\<lambda>r. (r, p)) (filter (\<lambda>r. r \<notin> failing st) subs)\<rparr>"
  by (induction subs arbitrary: st) (simp_all add: try_write_def res_write_def)

lemma pushSSE_sent:
  "sent (pushSSE k ev d st) =
     sent st @ map (\<lambda>r. (r, Frame ev d)) (filter (\<lambda>r. r \<notin> failing st) (listeners st k))"
  by (simp add: pushSSE_def listeners_def fold_try_write Let_def split: option.splits)

lemma pushSSE_resultsStore: "resultsStore (pushSSE k ev d st) = resultsStore st"
  by (simp add: pushSSE_def fold_try_write Let_def split: option.splits)

lemma pushSSE_failing: "failing (pushSSE k ev d st) = failing st"
  by (simp add: pushSSE_def fold_try_write Let_def split: option.splits)

lemma pushSSE_subscribers:
  "subscribers (pushSSE k ev d st) =
     (if ev = ''complete'' then (subscribers st)(k := None) else subscribers st)"
  by (auto simp add: pushSSE_def fold_try_write Let_def split: option.splits)

lemma new_sent_append: "sent st' = sent st @ xs \<Longrightarrow> new_sent st st' = xs"
  by (simp add: new_sent_def)

lemma new_sent_pushSSE:
  "new_sent st (pushSSE k ev d st) =
     map (\<lambda>r. (r, Frame ev d)) (filter (\<lambda>r. r \<notin> failing st) (listeners st k))"
  by (rule new_sent_append) (rule pushSSE_sent)

text \<open>A resolution: the store is written, then the fan-out runs.\<close>

lemma new_sent_resolve:
  "new_sent st (pushSSE k ev d (st\<lparr>resultsStore := m\<rparr>)) =
     map (\<lambda>r. (r, Frame ev d)) (filter (\<lambda>r. r \<notin> failing st) (listeners st k))"
  by (rule new_sent_append) (simp add: pushSSE_sent listeners_def)

lemma frames_of_conn:
  "r \<notin> F \<Longrightarrow>
   filter (\<lambda>cf. fst cf = r) (map (\<lambda>c. (c, p)) (filter (\<lambda>c. c \<notin> F) xs)) =
     replicate (count_list xs r) (r, p)"
  by (induction xs) auto

subsection \<open>The webhook\<close>

lemma get_prop_TypeError: "get_prop v k = Inl e \<Longrightarrow> e = TypeError"
  by (cases v) auto

lemma task_id_of_TypeError: "task_id_of payload = Inl e \<Longrightarrow> e = TypeError"
  by (auto simp: task_id_of_def split: if_splits sum.splits dest: get_prop_TypeError)

lemma suno_callback_valid:
  assumes "opt_prop (opt_prop payload ''data'') ''data'' = JArr clips"
    and "task_id_of payload = Inr jid" and "truthy jid"
  shows "suno_callback payload st =
           (pushSSE jid ''complete'' (wrap_clips clips)
              (st\<lparr>resultsStore := (resultsStore st)(jid \<mapsto> first clips)\<rparr>),
            Send 200 ''OK'')"
  using assms by (simp add: suno_callback_def)

lemma suno_callback_not_WriteError: "snd (suno_callback payload st) \<noteq> Threw WriteError"
  by (auto simp: suno_callback_def split: json.splits sum.splits dest: task_id_of_TypeError)

text \<open>Whatever the handler answers other than 200, it has left the state as it was.\<close>

lemma suno_callback_malformed_state:
  "snd (suno_callback payload st) \<noteq> Send 200 ''OK'' \<Longrightarrow> fst (suno_callback payload st) = st"
  by (auto simp add: suno_callback_def split: json.splits sum.splits if_splits)

lemma suno_callback_no_task_id:
  "opt_prop (opt_prop payload ''data'') ''data'' = JArr clips \<Longrightarrow> task_id_of payload = Inr jid \<Longrightarrow>
   \<not> truthy jid \<Longrightarrow> suno_callback payload st = (st, NoReply)"
  by (simp add: suno_callback_def)

lemma suno_callback_no_clip_list:
  "(\<And>clips. opt_prop (opt_prop payload ''data'') ''data'' \<noteq> JArr clips) \<Longrightarrow>
   suno_callback payload st = (st, Send 400 ''Invalid callback'')"
  by (auto simp add: suno_callback_def split: json.splits)

subsection \<open>Attaching\<close>

lemma attach_resultsStore: "resultsStore (snd (attach res jid st)) = resultsStore st"
  by (simp add: attach_def res_write_def Let_def split: option.splits)

lemma attach_failing: "failing (snd (attach res jid st)) = failing st"
  by (simp add: attach_def res_write_def Let_def split: option.splits)

lemma attach_no_throw: "res \<notin> failing st \<Longrightarrow> fst (attach res jid st) = None"
  by (simp add: attach_def res_write_def Let_def split: option.splits)

lemma attach_sent:
  "res \<notin> failing st \<Longrightarrow>
   sent (snd (attach res jid st)) = sent st @ delivered_at_attach st res [jid]"
  by (simp add: attach_def res_write_def Let_def delivered_at_attach_def split: option.splits)

lemma attach_listeners:
  "listeners (snd (attach res jid st)) k =
     listeners st k @ (if k = JStr jid \<and> resultsStore st k = None then [res] else [])"
  by (simp add: attach_def res_write_def Let_def listeners_def split: option.splits)

lemma attach_subscribers_stored:
  "resultsStore st k \<noteq> None \<Longrightarrow> subscribers (snd (attach res jid st)) k = subscribers st k"
  by (auto simp add: attach_def res_write_def Let_def split: option.splits)

lemma delivered_at_attach_Cons:
  "delivered_at_attach st res (jid # ids) =
     delivered_at_attach st res [jid] @ delivered_at_attach st res ids"
  by (simp add: delivered_at_attach_def split: option.splits)

lemma delivered_at_attach_cong:
  "resultsStore st' = resultsStore st \<Longrightarrow>
   delivered_at_attach st' res ids = delivered_at_attach st res ids"
  by (simp add: delivered_at_attach_def)

lemma delivered_at_attach_mem:
  "j \<in> set ids \<Longrightarrow> resultsStore st (JStr j) = Some rec \<Longrightarrow>
   (res, Frame ''complete'' rec) \<in> set (delivered_at_attach st res ids)"
  by (induction ids) (auto simp add: delivered_at_attach_def split: option.splits)

lemma count_list_JStr: "count_list (map JStr ids) (JStr j) = count_list ids j"
  by (induction ids) auto

text \<open>
  The loop of the attach on a connection that accepts writes: it runs through, leaves the
  store alone, writes the ready frames and registers the connection once for each
  occurrence of an identifier without a record.
\<close>

lemma forEach_attach:
  assumes "res \<notin> failing st"
  shows "fst (forEach (attach res) ids st) = None
    \<and> resultsStore (snd (forEach (attach res) ids st)) = resultsStore st
    \<and> failing (snd (forEach (attach res) ids st)) = failing st
    \<and> sent (snd (forEach (attach res) ids st)) = sent st @ delivered_at_attach st res ids
    \<and> (\<forall>k. listeners (snd (forEach (attach res) ids st)) k =
          listeners st k @
            replicate (if resultsStore st k = None then count_list (map JStr ids) k else 0) res)"
  using assms
proof (induction ids arbitrary: st)
  case Nil
  show ?case by (simp add: delivered_at_attach_def)
next
  case (Cons jid ids)
  obtain st1 where a: "attach res jid st = (None, st1)"
    using attach_no_throw [OF Cons.prems, of jid] by (cases "attach res jid st") auto
  have st1: "st1 = snd (attach res jid st)" using a by simp
  have f1: "res \<notin> failing st1" using Cons.prems by (simp add: st1 attach_failing)
  have r1: "resultsStore st1 = resultsStore st" by (simp add: st1 attach_resultsStore)
  have g1: "failing st1 = failing st" by (simp add: st1 attach_failing)
  have s1: "sent st1 = sent st @ delivered_at_attach st res [jid]"
    using Cons.prems by (simp add: st1 attach_sent)
  have l1: "\<And>k. listeners st1 k =
     listeners st k @ (if k = JStr jid \<and> resultsStore st k = None then [res] else [])"
    by (simp add: st1 attach_listeners)
  have step: "forEach (attach res) (jid # ids) st = forEach (attach res) ids st1"
    using a by simp
  note ih = Cons.IH [OF f1]
  show ?case
    unfolding step
    using ih
    by (auto simp add: r1 g1 s1 l1 delivered_at_attach_Cons [of st res jid ids]
        delivered_at_attach_cong [OF r1] replicate_append_same)
qed

lemma forEach_attach_stored:
  "resultsStore st k \<noteq> None \<Longrightarrow>
   subscribers (snd (forEach (attach res) ids st)) k = subscribers st k"
proof (induction ids arbitrary: st)
  case Nil
  show ?case by simp
next
  case (Cons jid ids)
  obtain e st1 where a: "attach res jid st = (e, st1)" by (cases "attach res jid st")
  have st1: "st1 = snd (attach res jid st)" using a by simp
  have k1: "resultsStore st1 k \<noteq> None" using Cons.prems by (simp add: st1 attach_resultsStore)
  have s1: "subscribers st1 k = subscribers st k"
    using Cons.prems by (simp add: st1 attach_subscribers_stored)
  show ?case
  proof (cases e)
    case None
    then show ?thesis using a Cons.IH [OF k1] s1 by simp
  next
    case (Some x)
    then show ?thesis using a s1 by simp
  qed
qed

lemma events_state:
  "res \<notin> failing st \<Longrightarrow> fst (events q res st) = snd (forEach (attach res) (parse_ids q) st)"
  using forEach_attach [of res st "parse_ids q"]
  by (auto simp add: events_def Let_def split: prod.splits option.splits)

lemma events_reply:
  "res \<notin> failing st \<Longrightarrow>
   snd (events q res st) =
     (if parse_ids q = [] then Send 400 ''clipIds query param required'' else Streaming)"
  using forEach_attach [of res st "parse_ids q"]
  by (auto simp add: events_def Let_def split: prod.splits option.splits)

lemma events_subscribers_stored:
  "resultsStore st k \<noteq> None \<Longrightarrow> subscribers (fst (events q res st)) k = subscribers st k"
  using forEach_attach_stored [of st k res "parse_ids q"]
  by (auto simp add: events_def Let_def split: prod.splits option.splits)

subsection \<open>Detaching\<close>

lemma filter_absent: "res \<notin> set xs \<Longrightarrow> filter (\<lambda>r. r \<noteq> res) xs = xs"
  by (induction xs) auto

lemma unsubscribe_idem: "unsubscribe res j (unsubscribe res j st) = unsubscribe res j st"
  by (auto simp add: unsubscribe_def Let_def split: option.splits)

lemma unsubscribe_absent:
  "subscribers st (JStr j) \<noteq> Some [] \<Longrightarrow> res \<notin> set (listeners st (JStr j)) \<Longrightarrow>
   unsubscribe res j st = st"
  by (auto simp add: unsubscribe_def listeners_def Let_def filter_absent map_upd_triv
      split: option.splits)

lemma unsubscribe_entry: "subscribers (unsubscribe res j st) (JStr j) \<noteq> Some []"
  by (auto simp add: unsubscribe_def Let_def split: option.splits)

lemma unsubscribe_removed: "res \<notin> set (listeners (unsubscribe res j st) (JStr j))"
  by (auto simp add: unsubscribe_def listeners_def Let_def split: option.splits)

lemma unsubscribe_other:
  "k \<noteq> JStr j \<Longrightarrow> subscribers (unsubscribe res j st) k = subscribers st k"
  by (auto simp add: unsubscribe_def Let_def split: option.splits)

lemma unsubscribe_detached_self: "detached res j (unsubscribe res j st)"
  by (simp add: detached_def unsubscribe_entry unsubscribe_removed)

lemma unsubscribe_detached_keep:
  assumes that: "detached res j st"
  shows "detached res j (unsubscribe res i st)"
proof (cases "i = j")
  case True
  then show ?thesis by (simp add: unsubscribe_detached_self)
next
  case False
  then have "subscribers (unsubscribe res i st) (JStr j) = subscribers st (JStr j)"
    by (simp add: unsubscribe_other)
  then show ?thesis using that by (simp add: detached_def listeners_def)
qed

lemma fold_unsubscribe_keep:
  "detached res j st \<Longrightarrow> detached res j (fold (unsubscribe res) ids st)"
  by (induction ids arbitrary: st) (simp_all add: unsubscribe_detached_keep)

lemma fold_unsubscribe_detached:
  "j \<in> set ids \<Longrightarrow> detached res j (fold (unsubscribe res) ids st)"
  by (induction ids arbitrary: st)
     (auto simp add: fold_unsubscribe_keep unsubscribe_detached_self)

lemma fold_unsubscribe_noop:
  "(\<And>j. j \<in> set ids \<Longrightarrow> detached res j st) \<Longrightarrow> fold (unsubscribe res) ids st = st"
  by (induction ids) (auto simp add: detached_def unsubscribe_absent)

lemma on_close_idem: "on_close q res (on_close q res st) = on_close q res st"
  unfolding on_close_def
  by (rule fold_unsubscribe_noop) (rule fold_unsubscribe_detached)

text \<open>What a removal leaves: the exact state after the loop body and after the listener.\<close>

lemma unsubscribe_eq:
  "unsubscribe res j st =
     st\<lparr>subscribers := (subscribers st)(JStr j := without res st (JStr j))\<rparr>"
  by (auto simp add: unsubscribe_def without_def listeners_def Let_def fun_upd_idem
      split: option.splits)

lemma listeners_unsubscribe:
  "listeners (unsubscribe res j st) k =
     (if k = JStr j then filter (\<lambda>r. r \<noteq> res) (listeners st k) else listeners st k)"
  by (auto simp add: unsubscribe_eq without_def listeners_def split: option.splits)

lemma without_unsubscribe:
  "without res (unsubscribe res j st) k = without res st k"
  by (simp add: without_def listeners_unsubscribe)

lemma subscribers_unsubscribe:
  "subscribers (unsubscribe res j st) k =
     (if k = JStr j then without res st k else subscribers st k)"
  by (simp add: unsubscribe_eq)

lemma fold_unsubscribe_subscribers:
  "subscribers (fold (unsubscribe res) ids st) k =
     (if k \<in> JStr ` set ids then without res st k else subscribers st k)"
proof (induction ids arbitrary: st)
  case Nil
  show ?case by simp
next
  case (Cons j ids)
  show ?case
    using Cons.IH [of "unsubscribe res j st"]
    by (auto simp add: without_unsubscribe subscribers_unsubscribe)
qed

lemma unsubscribe_fields:
  "resultsStore (unsubscribe res j st) = resultsStore st"
  "sent (unsubscribe res j st) = sent st"
  "failing (unsubscribe res j st) = failing st"
  "state.more (unsubscribe res j st) = state.more st"
  by (simp_all add: unsubscribe_eq)

lemma fold_unsubscribe_fields:
  "resultsStore (fold (unsubscribe res) ids st) = resultsStore st
   \<and> sent (fold (unsubscribe res) ids st) = sent st
   \<and> failing (fold (unsubscribe res) ids st) = failing st"
  by (induction ids arbitrary: st) (simp_all add: unsubscribe_fields)

lemma on_close_eq:
  "on_close q res st =
     st\<lparr>subscribers :=
          (\<lambda>k. if k \<in> JStr ` set (parse_ids q) then without res st k else subscribers st k)\<rparr>"
proof -
  have "subscribers (on_close q res st) =
      (\<lambda>k. if k \<in> JStr ` set (parse_ids q) then without res st k else subscribers st k)"
    by (rule ext) (simp add: on_close_def fold_unsubscribe_subscribers)
  moreover have "resultsStore (on_close q res st) = resultsStore st"
    "sent (on_close q res st) = sent st" "failing (on_close q res st) = failing st"
    using fold_unsubscribe_fields [of res "parse_ids q" st] by (simp_all add: on_close_def)
  ultimately show ?thesis by (cases st, cases "on_close q res st") simp
qed

lemma listeners_without:
  "(case without res st k of None \<Rightarrow> [] | Some arr \<Rightarrow> arr) = filter (\<lambda>r. r \<noteq> res) (listeners st k)"
  by (simp add: without_def)

lemma listeners_on_close:
  "listeners (on_close q res st) k =
     (if k \<in> JStr ` set (parse_ids q) then filter (\<lambda>r. r \<noteq> res) (listeners st k)
      else listeners st k)"
  by (simp add: on_close_eq listeners_def [of "_\<lparr>subscribers := _\<rparr>"] listeners_without)
    (simp add: listeners_def)

subsection \<open>No empty array in the registry\<close>

lemma forEach_invariant:
  assumes step: "\<And>x s. P s \<Longrightarrow> P (snd (f x s))"
  shows "P s \<Longrightarrow> P (snd (forEach f xs s))"
proof (induction xs arbitrary: s)
  case Nil
  then show ?case by simp
next
  case (Cons x xs)
  obtain e s1 where a: "f x s = (e, s1)" by (cases "f x s")
  have p1: "P s1" using step [OF Cons.prems, of x] a by simp
  show ?case
  proof (cases e)
    case None
    then show ?thesis using a Cons.IH [OF p1] by simp
  next
    case (Some y)
    then show ?thesis using a p1 by simp
  qed
qed

lemma unsubscribe_no_empty: "no_empty_set st \<Longrightarrow> no_empty_set (unsubscribe res j st)"
  by (auto simp add: no_empty_set_def unsubscribe_def Let_def split: option.splits)

lemma fold_unsubscribe_no_empty:
  "no_empty_set st \<Longrightarrow> no_empty_set (fold (unsubscribe res) ids st)"
  by (induction ids arbitrary: st) (simp_all add: unsubscribe_no_empty)

lemma on_close_no_empty: "no_empty_set st \<Longrightarrow> no_empty_set (on_close q res st)"
  by (simp add: on_close_def fold_unsubscribe_no_empty)

lemma attach_no_empty: "no_empty_set st \<Longrightarrow> no_empty_set (snd (attach res jid st))"
  by (auto simp add: no_empty_set_def attach_def res_write_def Let_def split: option.splits)

lemma events_no_empty: "no_empty_set st \<Longrightarrow> no_empty_set (fst (events q res st))"
  using forEach_invariant [of no_empty_set "attach res" st "parse_ids q", OF attach_no_empty]
  by (auto simp add: events_def Let_def split: prod.splits option.splits)

lemma pushSSE_no_empty: "no_empty_set st \<Longrightarrow> no_empty_set (pushSSE k ev d st)"
  by (simp add: no_empty_set_def pushSSE_subscribers)

lemma suno_callback_no_empty: "no_empty_set st \<Longrightarrow> no_empty_set (fst (suno_callback payload st))"
proof -
  assume a: "no_empty_set st"
  have b: "\<And>k v. no_empty_set (st\<lparr>resultsStore := (resultsStore st)(k \<mapsto> v)\<rparr>)"
    using a by (simp add: no_empty_set_def)
  show ?thesis
    using a by (auto simp add: suno_callback_def pushSSE_no_empty [OF b] split: json.splits sum.splits)
qed

lemma backfill_no_empty:
  "no_empty_set (fst sf) \<Longrightarrow> no_empty_set (fst (snd (backfill clip sf)))"
proof -
  assume a: "no_empty_set (fst sf)"
  obtain st found where sf: "sf = (st, found)" by (cases sf)
  have b: "\<And>k v. no_empty_set (st\<lparr>resultsStore := (resultsStore st)(k \<mapsto> v)\<rparr>)"
    using a by (simp add: no_empty_set_def sf)
  show ?thesis
    using a by (auto simp add: sf backfill_def Let_def pushSSE_no_empty [OF b] split: sum.splits)
qed

lemma status_resume_no_empty:
  "no_empty_set st \<Longrightarrow> no_empty_set (fst (status_resume r found pending st))"
proof -
  assume a: "no_empty_set st"
  have "no_empty_set (fst (snd (forEach backfill xs (st, found))))" for xs
    using forEach_invariant [of "\<lambda>sf. no_empty_set (fst sf)" backfill "(st, found)" xs,
        OF backfill_no_empty] a
    by simp
  then have "forEach backfill xs (st, found) = (e, st', found') \<Longrightarrow> no_empty_set st'"
    for xs e st' found'
    by (metis fst_conv snd_conv)
  then show ?thesis
    using a by (auto simp add: status_resume_def split: sum.splits prod.splits)
qed

lemma reachable_no_empty: "reachable st \<Longrightarrow> no_empty_set st"
proof (induction rule: reachable.induct)
  case reach_init
  show ?case by (simp add: no_empty_set_def init_def)
next
  case (reach_failing st F)
  then show ?case by (simp add: no_empty_set_def)
next
  case (reach_events st q res)
  then show ?case by (simp add: events_no_empty)
next
  case (reach_close st q res)
  then show ?case by (simp add: on_close_no_empty)
next
  case (reach_callback st payload)
  then show ?case by (simp add: suno_callback_no_empty)
next
  case (reach_status st r found pending)
  then show ?case by (simp add: status_resume_no_empty)
qed

subsection \<open>Reconciliation\<close>

lemma partition_ids_eq:
  "partition_ids st ids (found, pending) = (found @ known st ids, pending @ unresolved st ids)"
  by (induction ids arbitrary: found pending)
     (simp_all add: known_def unresolved_def split: option.splits)

lemma get_prop_opt_prop: "not_nullish v \<Longrightarrow> get_prop v k = Inr (opt_prop v k)"
  by (cases v) (simp_all add: not_nullish_def)

lemma get_prop_nullish: "\<not> not_nullish v \<Longrightarrow> get_prop v k = Inl TypeError"
  by (cases v) (simp_all add: not_nullish_def)

lemma backfill_nullish:
  "\<not> not_nullish clip \<Longrightarrow> backfill clip (st, found) = (Some TypeError, st, found)"
  by (simp add: backfill_def get_prop_nullish)

lemma backfill_skip:
  "not_nullish clip \<Longrightarrow> \<not> reported_complete clip \<Longrightarrow>
   backfill clip (st, found) = (None, st, found)"
  by (auto simp add: backfill_def get_prop_opt_prop reported_complete_def job_id_def Let_def)

lemma backfill_resolve:
  "not_nullish clip \<Longrightarrow> reported_complete clip \<Longrightarrow>
   backfill clip (st, found) =
     (None,
      pushSSE (job_id clip) ''complete'' clip
        (st\<lparr>resultsStore := (resultsStore st)(job_id clip \<mapsto> clip)\<rparr>),
      found @ [clip])"
  by (auto simp add: backfill_def get_prop_opt_prop reported_complete_def job_id_def Let_def)

lemma forEach_backfill_found:
  "snd (snd (forEach backfill list (st, found))) = found @ newly_found list"
proof (induction list arbitrary: st found)
  case Nil
  show ?case by (simp add: newly_found_def)
next
  case (Cons clip list)
  show ?case
  proof (cases "not_nullish clip")
    case False
    then show ?thesis by (simp add: backfill_nullish newly_found_def)
  next
    case True
    show ?thesis
    proof (cases "reported_complete clip")
      case False
      then show ?thesis using True Cons.IH [of st found]
        by (simp add: backfill_skip newly_found_def)
    next
      case c: True
      show ?thesis using True c Cons.IH
        by (simp add: backfill_resolve newly_found_def)
    qed
  qed
qed

lemma status_resume_reply: "\<exists>f. snd (status_resume r found pending st) = JsonStatus f pending"
  by (auto simp: status_resume_def split: sum.splits prod.splits)

lemma status_resume_Inl: "status_resume (Inl e) found pending st = (st, JsonStatus found pending)"
  by (simp add: status_resume_def)

lemma status_resume_found:
  "clip_list rdata = Inr list \<Longrightarrow>
   snd (status_resume (Inr rdata) found pending st) = JsonStatus (found @ newly_found list) pending"
  using forEach_backfill_found [of list st found]
  by (auto simp add: status_resume_def split: prod.splits)

lemma status_eq:
  "parse_ids q \<noteq> [] \<Longrightarrow>
   status axios_get q st =
     (if unresolved st (parse_ids q) = []
      then (st, JsonStatus (known st (parse_ids q)) [])
      else status_resume (axios_get (status_url (unresolved st (parse_ids q))))
             (known st (parse_ids q)) (unresolved st (parse_ids q)) st)"
  by (simp add: status_def Let_def partition_ids_eq)

section \<open>The claims\<close>

subsection \<open>C1: what a later resolution does to a stored record\<close>

text \<open>
  Claim C1, amended. Both resolution paths write the store with \<^verbatim>\<open>Map.set\<close>, whether or
  not the identifier has a record: after a webhook with a clip list and an identifier the
  store holds the first entry of that clip list for the identifier, and after the
  reconciliation loop has taken an entry reported complete the store holds that entry for
  its identifier. A later resolution so replaces the record of an earlier one (the last
  writer wins); neither write raises an error.
\<close>

theorem resolution_overwrites:
  "(opt_prop (opt_prop payload ''data'') ''data'' = JArr clips \<and> task_id_of payload = Inr jid
      \<and> truthy jid \<longrightarrow>
      resultsStore (fst (suno_callback payload st)) jid = Some (first clips)
      \<and> snd (suno_callback payload st) = Send 200 ''OK'')
   \<and> (not_nullish clip \<and> reported_complete clip \<longrightarrow>
      resultsStore (fst (snd (backfill clip (st, found)))) (job_id clip) = Some clip
      \<and> fst (backfill clip (st, found)) = None)"
  by (simp add: suno_callback_valid backfill_resolve pushSSE_resultsStore)

theorem resolution_overwrites_witness:
  "opt_prop (opt_prop a_again_payload ''data'') ''data'' =
     JArr [JArr [JObj [(''id'', JStr ''cz''), (''title'', JStr ''Z'')]]]
   \<and> task_id_of a_again_payload = Inr (JStr ''a'') \<and> truthy (JStr ''a'')
   \<and> resultsStore resolved_a (JStr ''a'') = Some a_record
   \<and> resultsStore (fst (suno_callback a_again_payload resolved_a)) (JStr ''a'') =
       Some (JArr [JObj [(''id'', JStr ''cz''), (''title'', JStr ''Z'')]])
   \<and> snd (suno_callback a_again_payload resolved_a) = Send 200 ''OK''
   \<and> not_nullish b_clip \<and> reported_complete b_clip \<and> job_id b_clip = JStr ''b''
   \<and> resultsStore (fst (snd (backfill b_clip (resolved_a, [])))) (JStr ''b'') = Some b_clip
   \<and> fst (backfill b_clip (resolved_a, [])) = None"
proof -
  have c: "opt_prop (opt_prop a_again_payload ''data'') ''data'' =
     JArr [JArr [JObj [(''id'', JStr ''cz''), (''title'', JStr ''Z'')]]]" by code_simp
  have t: "task_id_of a_again_payload = Inr (JStr ''a'')" by code_simp
  have a: "resultsStore resolved_a (JStr ''a'') = Some a_record" by code_simp
  have n: "not_nullish b_clip" by code_simp
  have r: "reported_complete b_clip" by code_simp
  have j: "job_id b_clip = JStr ''b''" by code_simp
  show ?thesis
    using resolution_overwrites [of a_again_payload
        "[JArr [JObj [(''id'', JStr ''cz''), (''title'', JStr ''Z'')]]]" "JStr ''a''" resolved_a
        b_clip "[]"] c t a n r j
    by simp
qed

text \<open>
  C1 as stated fails: after the webhook for \<open>a\<close> the store holds its record, and a second
  webhook for \<open>a\<close> puts another record in its place.
\<close>

theorem first_writer_wins_counterexample:
  "resultsStore resolved_a (JStr ''a'') =
     Some (JArr [JObj [(''id'', JStr ''ca''), (''title'', JStr ''A'')]])
   \<and> resultsStore (fst (suno_callback a_again_payload resolved_a)) (JStr ''a'') =
     Some (JArr [JObj [(''id'', JStr ''cz''), (''title'', JStr ''Z'')]])"
  by code_simp

subsection \<open>C2: the answer of the reconciliation endpoint\<close>

text \<open>
  Claim C2, amended. For a request with a non-empty id list whose outbound query is
  answered with a clip list, \<open>found\<close> is the records of the ids already resolved locally
  followed by the entries the answer reports complete (those before a first \<^verbatim>\<open>null\<close>
  entry), and \<open>pending\<close> is the requested ids that had no record when the request came
  in: the backfill takes nothing out of it. When every id is resolved locally no query
  is made and \<open>pending\<close> is empty.
\<close>

theorem status_found_and_pending:
  assumes "parse_ids q \<noteq> []"
  shows "(unresolved st (parse_ids q) = [] \<longrightarrow>
          status axios_get q st = (st, JsonStatus (known st (parse_ids q)) []))
    \<and> (unresolved st (parse_ids q) \<noteq> []
         \<and> axios_get (status_url (unresolved st (parse_ids q))) = Inr rdata
         \<and> clip_list rdata = Inr list \<longrightarrow>
          snd (status axios_get q st) =
            JsonStatus (known st (parse_ids q) @ newly_found list) (unresolved st (parse_ids q)))"
  using assms by (simp add: status_eq status_resume_found)

theorem status_found_and_pending_witness:
  "parse_ids (Some ''a,b'') \<noteq> []
   \<and> unresolved resolved_a (parse_ids (Some ''a,b'')) \<noteq> []
   \<and> b_complete (status_url (unresolved resolved_a (parse_ids (Some ''a,b'')))) = Inr (JArr [b_clip])
   \<and> clip_list (JArr [b_clip]) = Inr [b_clip]
   \<and> snd (status b_complete (Some ''a,b'') resolved_a) = JsonStatus [a_record, b_clip] [''b'']"
proof -
  have p: "parse_ids (Some ''a,b'') = [''a'', ''b'']" by code_simp
  have k: "known resolved_a [''a'', ''b''] = [a_record]" by code_simp
  have u: "unresolved resolved_a [''a'', ''b''] = [''b'']" by code_simp
  have n: "parse_ids (Some ''a,b'') \<noteq> []" by (simp add: p)
  have r: "b_complete (status_url (unresolved resolved_a (parse_ids (Some ''a,b'')))) = Inr (JArr [b_clip])"
    by code_simp
  have c: "clip_list (JArr [b_clip]) = Inr [b_clip]" by code_simp
  have f: "newly_found [b_clip] = [b_clip]" by code_simp
  show ?thesis
    using status_found_and_pending
        [of "Some ''a,b''" resolved_a b_complete "JArr [b_clip]" "[b_clip]", OF n] p k u r c f
    by simp
qed

text \<open>
  C2 as stated fails on its own scenario: with \<open>a\<close> resolved, \<open>b\<close> not, and the
  collaborator reporting \<open>b\<close> complete, \<open>found\<close> holds both records and the store holds
  \<open>b\<close> afterwards, yet \<open>pending\<close> is \<^verbatim>\<open>["b"]\<close>.
\<close>

theorem status_pending_counterexample:
  "parse_ids (Some ''a,b'') = [''a'', ''b'']
   \<and> resultsStore resolved_a (JStr ''a'') = Some a_record
   \<and> resultsStore resolved_a (JStr ''b'') = None
   \<and> snd (status b_complete (Some ''a,b'') resolved_a) = JsonStatus [a_record, b_clip] [''b'']
   \<and> resultsStore (fst (status b_complete (Some ''a,b'') resolved_a)) (JStr ''b'') = Some b_clip"
  by code_simp

subsection \<open>C3: a webhook without a job identifier\<close>

text \<open>
  Claim C3. A webhook body with a clip list and no job identifier must get a client-error
  answer and change nothing. The handler changes nothing, but it returns without
  answering at all: on \<^verbatim>\<open>{data: {data: [[{id: "c1"}]]}}\<close> no response is sent, where the
  branch for a missing clip list sends 400.
\<close>

theorem callback_without_task_id_no_reply:
  "suno_callback no_id_payload st = (st, NoReply)"
  by (simp add: suno_callback_def no_id_payload_def task_id_of_def js_or_def)

subsection \<open>C4: deliveries of the fan-out\<close>

text \<open>
  Claim C4, amended. For a listener whose connection accepts the write, the fan-out at
  the resolution of an identifier writes the completion frame once for each time the
  listener is registered under the identifier, and nothing else to it: exactly once when
  it is registered once, which is the case when its attach request named the identifier
  once. After the fan-out the registry has no entry for the identifier. This holds of
  the fan-out itself, of the webhook (whose frame carries \<^verbatim>\<open>{data: {data: [clips]}}\<close>)
  and of the reconciliation loop (whose frame carries the clip).
\<close>

theorem fanout_once_per_registration:
  assumes "r \<notin> failing st"
  shows "filter (\<lambda>cf. fst cf = r) (new_sent st (pushSSE k ''complete'' d st)) =
           replicate (count_list (listeners st k) r) (r, Frame ''complete'' d)
    \<and> subscribers (pushSSE k ''complete'' d st) k = None
    \<and> (opt_prop (opt_prop payload ''data'') ''data'' = JArr clips \<and> task_id_of payload = Inr jid
         \<and> truthy jid \<longrightarrow>
         filter (\<lambda>cf. fst cf = r) (new_sent st (fst (suno_callback payload st))) =
           replicate (count_list (listeners st jid) r) (r, Frame ''complete'' (wrap_clips clips))
         \<and> subscribers (fst (suno_callback payload st)) jid = None)
    \<and> (not_nullish clip \<and> reported_complete clip \<longrightarrow>
         filter (\<lambda>cf. fst cf = r) (new_sent st (fst (snd (backfill clip (st, found))))) =
           replicate (count_list (listeners st (job_id clip)) r) (r, Frame ''complete'' clip)
         \<and> subscribers (fst (snd (backfill clip (st, found)))) (job_id clip) = None)"
  using assms
  by (simp add: new_sent_pushSSE new_sent_resolve frames_of_conn pushSSE_subscribers
      suno_callback_valid backfill_resolve)

theorem fanout_once_per_registration_witness:
  "1 \<notin> failing two_listeners
   \<and> count_list (listeners two_listeners (JStr ''j'')) 1 = 1
   \<and> opt_prop (opt_prop song_payload ''data'') ''data'' =
       JArr [JArr [JObj [(''id'', JStr ''c1''), (''title'', JStr ''Song'')]]]
   \<and> task_id_of song_payload = Inr (JStr ''j'') \<and> truthy (JStr ''j'')
   \<and> filter (\<lambda>cf. fst cf = 1) (new_sent two_listeners (fst (suno_callback song_payload two_listeners))) =
       [(1, Frame ''complete''
              (wrap_clips [JArr [JObj [(''id'', JStr ''c1''), (''title'', JStr ''Song'')]]]))]
   \<and> subscribers (fst (suno_callback song_payload two_listeners)) (JStr ''j'') = None"
proof -
  have l: "listeners two_listeners (JStr ''j'') = [1, 2]" by code_simp
  have f: "1 \<notin> failing two_listeners" by code_simp
  have c: "opt_prop (opt_prop song_payload ''data'') ''data'' =
       JArr [JArr [JObj [(''id'', JStr ''c1''), (''title'', JStr ''Song'')]]]" by code_simp
  have t: "task_id_of song_payload = Inr (JStr ''j'')" by code_simp
  show ?thesis
    using fanout_once_per_registration [OF f, where payload = song_payload
        and clips = "[JArr [JObj [(''id'', JStr ''c1''), (''title'', JStr ''Song'')]]]"
        and jid = "JStr ''j''"] l f c t
    by simp
qed

text \<open>
  C4 as stated fails: the request \<^verbatim>\<open>GET /events?clipIds=j,j\<close> registers its connection
  twice under \<open>j\<close>, and the webhook for \<open>j\<close> then writes two frames to it.
\<close>

theorem fanout_exactly_once_counterexample:
  "1 \<in> set (listeners attached_twice (JStr ''j''))
   \<and> count_list (map fst (new_sent attached_twice (fst (suno_callback song_payload attached_twice)))) 1 = 2"
  by code_simp

subsection \<open>C5: repeated identifiers in an attach request\<close>

text \<open>
  Claim C5, amended. An attach request on a connection that accepts writes handles each
  occurrence of an identifier in its id list by itself: it writes one frame for each
  occurrence of an identifier whose record is stored, in the order of the request, and
  it registers the connection once for each occurrence of an identifier that has no
  record. An identifier named once is so delivered at most once at attach time and
  registered at most once; an identifier named \<open>n\<close> times is delivered or registered
  \<open>n\<close> times.
\<close>

theorem attach_once_per_occurrence:
  assumes "res \<notin> failing st"
  shows "new_sent st (fst (events q res st)) = delivered_at_attach st res (parse_ids q)
    \<and> listeners (fst (events q res st)) (JStr j) =
        listeners st (JStr j) @
          replicate (if resultsStore st (JStr j) = None then count_list (parse_ids q) j else 0) res"
  using forEach_attach [OF assms, of "parse_ids q"]
  by (simp add: events_state [OF assms] new_sent_append count_list_JStr)

theorem attach_once_per_occurrence_witness:
  "1 \<notin> failing resolved_a
   \<and> new_sent resolved_a (fst (events (Some ''a,b'') 1 resolved_a)) = [(1, Frame ''complete'' a_record)]
   \<and> listeners (fst (events (Some ''a,b'') 1 resolved_a)) (JStr ''b'') = [1]"
proof -
  have f: "1 \<notin> failing resolved_a" by code_simp
  have p: "parse_ids (Some ''a,b'') = [''a'', ''b'']" by code_simp
  have d: "delivered_at_attach resolved_a 1 [''a'', ''b''] = [(1, Frame ''complete'' a_record)]"
    by code_simp
  have l: "listeners resolved_a (JStr ''b'') = []" by code_simp
  have r: "resultsStore resolved_a (JStr ''b'') = None" by code_simp
  show ?thesis
    using attach_once_per_occurrence [OF f, of "Some ''a,b''" "''b''"] f p d l r
    by simp
qed

text \<open>
  C5 as stated fails: with the record of \<open>a\<close> stored, the request
  \<^verbatim>\<open>GET /events?clipIds=a,a\<close> keeps both occurrences and gets the record twice.
\<close>

theorem attach_duplicate_ids_counterexample:
  "parse_ids (Some ''a,a'') = [''a'', ''a'']
   \<and> new_sent resolved_a (fst (events (Some ''a,a'') 1 resolved_a)) =
       [(1, Frame ''complete'' a_record), (1, Frame ''complete'' a_record)]"
  by code_simp

subsection \<open>C6: the fast path\<close>

text \<open>
  Claim C6. When the store holds a record for an identifier that an attach request
  names, the request, on a connection that accepts writes, opens the stream, writes the
  stored record to its connection in a \<open>complete\<close> frame during the attach, and leaves
  the registry entry of that identifier as it was: the connection is not registered
  under it.
\<close>

theorem attach_fast_path:
  assumes "res \<notin> failing st" and "j \<in> set (parse_ids q)"
    and "resultsStore st (JStr j) = Some rec"
  shows "snd (events q res st) = Streaming
    \<and> (res, Frame ''complete'' rec) \<in> set (new_sent st (fst (events q res st)))
    \<and> subscribers (fst (events q res st)) (JStr j) = subscribers st (JStr j)"
proof -
  have ne: "parse_ids q \<noteq> []" using assms(2) by auto
  have s: "new_sent st (fst (events q res st)) = delivered_at_attach st res (parse_ids q)"
    using forEach_attach [OF assms(1), of "parse_ids q"]
    by (simp add: events_state [OF assms(1)] new_sent_append)
  show ?thesis
    using ne assms
    by (simp add: events_reply s delivered_at_attach_mem events_subscribers_stored)
qed

theorem attach_fast_path_witness:
  "1 \<notin> failing resolved_a \<and> ''a'' \<in> set (parse_ids (Some ''b, a''))
   \<and> resultsStore resolved_a (JStr ''a'') = Some a_record
   \<and> snd (events (Some ''b, a'') 1 resolved_a) = Streaming
   \<and> (1, Frame ''complete'' a_record) \<in> set (new_sent resolved_a (fst (events (Some ''b, a'') 1 resolved_a)))
   \<and> subscribers (fst (events (Some ''b, a'') 1 resolved_a)) (JStr ''a'') = None"
proof -
  have f: "1 \<notin> failing resolved_a" by code_simp
  have p: "''a'' \<in> set (parse_ids (Some ''b, a''))" by code_simp
  have r: "resultsStore resolved_a (JStr ''a'') = Some a_record" by code_simp
  have n: "subscribers resolved_a (JStr ''a'') = None" by code_simp
  show ?thesis
    using attach_fast_path [OF f p r] f p r n by simp
qed

subsection \<open>C7: a failed write during the fan-out\<close>

text \<open>
  Claim C7. In a fan-out every listener whose connection accepts the write gets the
  frame, in registration order, whatever the other connections do: a write that throws
  is skipped and the loop goes on. The exception reaches neither caller of the fan-out:
  the webhook handler never ends in it, and the reconciliation handler always answers
  with its \<open>found\<close> and \<open>pending\<close>.
\<close>

theorem fanout_survives_failed_write:
  "sent (pushSSE k ev d st) =
     sent st @ map (\<lambda>r. (r, Frame ev d)) (filter (\<lambda>r. r \<notin> failing st) (listeners st k))
   \<and> snd (suno_callback payload st) \<noteq> Threw WriteError
   \<and> (\<exists>f. snd (status_resume r found pending st) = JsonStatus f pending)"
  by (simp add: pushSSE_sent suno_callback_not_WriteError status_resume_reply)

theorem fanout_survives_failed_write_witness:
  "sent (pushSSE (JStr ''j'') ''complete'' (JStr ''song'') three_listeners) =
     [(1, Frame ''complete'' (JStr ''song'')), (3, Frame ''complete'' (JStr ''song''))]"
  using fanout_survives_failed_write [of "JStr ''j''" "''complete''" "JStr ''song''" three_listeners]
  by (simp add: three_listeners_def init_def listeners_def)

subsection \<open>C8: unsubscribing\<close>

text \<open>
  Claim C8. Removing a connection from an identifier is a total function of the state,
  and it does exactly this: the array of the identifier loses every occurrence of the
  connection and nothing else, the entry is deleted when nothing is left in the array,
  and every other key and every other field stays as it was. The \<^verbatim>\<open>close\<close> listener
  does the same for every identifier of its request. Both are idempotent. In a state of
  the server, removing a connection that is not registered under the identifier changes
  nothing. After a removal the identifier has no empty array, and no state of the server
  holds an empty array under any key.
\<close>

theorem unsubscribe_idempotent_no_empty_sets:
  "unsubscribe res j st =
     st\<lparr>subscribers := (subscribers st)(JStr j := without res st (JStr j))\<rparr>
   \<and> on_close q res st =
     st\<lparr>subscribers :=
          (\<lambda>k. if k \<in> JStr ` set (parse_ids q) then without res st k else subscribers st k)\<rparr>
   \<and> listeners (unsubscribe res j st) k =
       (if k = JStr j then filter (\<lambda>r. r \<noteq> res) (listeners st k) else listeners st k)
   \<and> listeners (on_close q res st) k =
       (if k \<in> JStr ` set (parse_ids q) then filter (\<lambda>r. r \<noteq> res) (listeners st k)
        else listeners st k)
   \<and> (filter (\<lambda>r. r \<noteq> res) (listeners st (JStr j)) = [] \<longrightarrow>
        subscribers (unsubscribe res j st) (JStr j) = None)
   \<and> unsubscribe res j (unsubscribe res j st) = unsubscribe res j st
   \<and> on_close q res (on_close q res st) = on_close q res st
   \<and> (reachable st \<and> res \<notin> set (listeners st (JStr j)) \<longrightarrow> unsubscribe res j st = st)
   \<and> subscribers (unsubscribe res j st) (JStr j) \<noteq> Some []
   \<and> (reachable st \<longrightarrow> subscribers st k \<noteq> Some [])"
proof -
  have inv: "reachable st \<longrightarrow> subscribers st k \<noteq> Some []"
    using reachable_no_empty [of st] by (simp add: no_empty_set_def)
  have del: "filter (\<lambda>r. r \<noteq> res) (listeners st (JStr j)) = [] \<longrightarrow>
      subscribers (unsubscribe res j st) (JStr j) = None"
    by (simp add: subscribers_unsubscribe without_def)
  have noop: "reachable st \<and> res \<notin> set (listeners st (JStr j)) \<longrightarrow> unsubscribe res j st = st"
    using reachable_no_empty [of st] by (auto simp add: no_empty_set_def unsubscribe_absent)
  show ?thesis
    by (intro conjI)
       (rule unsubscribe_eq on_close_eq listeners_unsubscribe listeners_on_close del
          unsubscribe_idem on_close_idem noop unsubscribe_entry inv)+
qed

theorem unsubscribe_idempotent_no_empty_sets_witness:
  "reachable two_listeners \<and> 3 \<notin> set (listeners two_listeners (JStr ''j''))
   \<and> unsubscribe 3 ''j'' two_listeners = two_listeners
   \<and> subscribers two_listeners (JStr ''j'') = Some [1, 2]
   \<and> listeners (unsubscribe 1 ''j'' two_listeners) (JStr ''j'') = [2]
   \<and> listeners (on_close (Some ''j'') 1 two_listeners) (JStr ''j'') = [2]
   \<and> subscribers (unsubscribe 1 ''j'' two_listeners) (JStr ''j'') = Some [2]
   \<and> subscribers (unsubscribe 2 ''j'' (unsubscribe 1 ''j'' two_listeners)) (JStr ''j'') = None
   \<and> filter (\<lambda>r. r \<noteq> 1) (listeners sole_listener (JStr ''j'')) = []
   \<and> subscribers (unsubscribe 1 ''j'' sole_listener) (JStr ''j'') = None
   \<and> listeners (on_close (Some ''j'') 1 sole_listener) (JStr ''j'') = []"
proof -
  have r: "reachable two_listeners"
    unfolding two_listeners_def by (intro reach_events reach_init)
  have l: "listeners two_listeners (JStr ''j'') = [1, 2]" by code_simp
  have o: "listeners sole_listener (JStr ''j'') = [1]" by code_simp
  have p: "parse_ids (Some ''j'') = [''j'']" by code_simp
  have s: "subscribers two_listeners (JStr ''j'') = Some [1, 2]" by code_simp
  have u: "subscribers (unsubscribe 1 ''j'' two_listeners) (JStr ''j'') = Some [2]" by code_simp
  have v: "subscribers (unsubscribe 2 ''j'' (unsubscribe 1 ''j'' two_listeners)) (JStr ''j'') = None"
    by code_simp
  note a = unsubscribe_idempotent_no_empty_sets
    [where res = 3 and j = "''j''" and st = two_listeners and k = "JStr ''j''" and q = None]
  note b = unsubscribe_idempotent_no_empty_sets
    [where res = 1 and j = "''j''" and st = two_listeners and k = "JStr ''j''" and q = "Some ''j''"]
  note c = unsubscribe_idempotent_no_empty_sets
    [where res = 1 and j = "''j''" and st = sole_listener and k = "JStr ''j''" and q = "Some ''j''"]
  have "reachable two_listeners \<and> 3 \<notin> set (listeners two_listeners (JStr ''j'')) \<longrightarrow>
      unsubscribe 3 ''j'' two_listeners = two_listeners"
    using a by blast
  then have 1: "unsubscribe 3 ''j'' two_listeners = two_listeners"
    using r l by simp
  have "listeners (unsubscribe 1 ''j'' two_listeners) (JStr ''j'') =
      (if JStr ''j'' = JStr ''j'' then filter (\<lambda>r. r \<noteq> 1) (listeners two_listeners (JStr ''j''))
       else listeners two_listeners (JStr ''j''))"
    using b by blast
  then have 2: "listeners (unsubscribe 1 ''j'' two_listeners) (JStr ''j'') = [2]"
    using l by simp
  have "listeners (on_close (Some ''j'') 1 two_listeners) (JStr ''j'') =
      (if JStr ''j'' \<in> JStr ` set (parse_ids (Some ''j''))
       then filter (\<lambda>r. r \<noteq> 1) (listeners two_listeners (JStr ''j''))
       else listeners two_listeners (JStr ''j''))"
    using b by blast
  then have 3: "listeners (on_close (Some ''j'') 1 two_listeners) (JStr ''j'') = [2]"
    using l p by simp
  have "filter (\<lambda>r. r \<noteq> 1) (listeners sole_listener (JStr ''j'')) = [] \<longrightarrow>
      subscribers (unsubscribe 1 ''j'' sole_listener) (JStr ''j'') = None"
    using c by blast
  then have 4: "subscribers (unsubscribe 1 ''j'' sole_listener) (JStr ''j'') = None"
    using o by simp
  have "listeners (on_close (Some ''j'') 1 sole_listener) (JStr ''j'') =
      (if JStr ''j'' \<in> JStr ` set (parse_ids (Some ''j''))
       then filter (\<lambda>r. r \<noteq> 1) (listeners sole_listener (JStr ''j''))
       else listeners sole_listener (JStr ''j''))"
    using c by blast
  then have 5: "listeners (on_close (Some ''j'') 1 sole_listener) (JStr ''j'') = []"
    using o p by simp
  show ?thesis
    using r l o s u v 1 2 3 4 5 by simp
qed

subsection \<open>C9: a failed status query\<close>

text \<open>
  Claim C9. A request to the reconciliation endpoint with a non-empty id list is always
  answered with \<open>found\<close> and \<open>pending\<close>, \<open>pending\<close> being the requested ids without a
  record, whatever the outbound query does. When the query fails, the state is left as
  it was and \<open>found\<close> is the records already known.
\<close>

theorem status_survives_query_failure:
  assumes "parse_ids q \<noteq> []"
  shows "(\<exists>found. snd (status axios_get q st) = JsonStatus found (unresolved st (parse_ids q)))
    \<and> (axios_get (status_url (unresolved st (parse_ids q))) = Inl e \<longrightarrow>
         status axios_get q st =
           (st, JsonStatus (known st (parse_ids q)) (unresolved st (parse_ids q))))"
  using status_resume_reply
    [of "axios_get (status_url (unresolved st (parse_ids q)))" "known st (parse_ids q)"
        "unresolved st (parse_ids q)" st]
  by (auto simp add: status_eq [OF assms] status_resume_Inl)

theorem status_survives_query_failure_witness:
  "parse_ids (Some ''a,b'') \<noteq> []
   \<and> unavailable (status_url (unresolved resolved_a (parse_ids (Some ''a,b'')))) = Inl AxiosError
   \<and> status unavailable (Some ''a,b'') resolved_a = (resolved_a, JsonStatus [a_record] [''b''])"
proof -
  have p: "parse_ids (Some ''a,b'') = [''a'', ''b'']" by code_simp
  have k: "known resolved_a [''a'', ''b''] = [a_record]" by code_simp
  have u: "unresolved resolved_a [''a'', ''b''] = [''b'']" by code_simp
  have n: "parse_ids (Some ''a,b'') \<noteq> []" by (simp add: p)
  show ?thesis
    using status_survives_query_failure [OF n, of unavailable resolved_a AxiosError] p k u
    by (simp add: unavailable_def)
qed

subsection \<open>C10: a webhook with an empty clip list\<close>

text \<open>
  Claim C10. A webhook body whose clip list is the empty array and which carries a job
  identifier is accepted: the handler answers 200, stores \<^verbatim>\<open>undefined\<close>, the first
  element of the empty list, under the identifier, writes a \<open>complete\<close> frame to the
  listeners of the identifier and removes their registry entry. From then on the
  identifier counts as resolved: an attach request for it takes the fast path and writes
  \<^verbatim>\<open>undefined\<close>, and the partition of the reconciliation endpoint puts it in \<open>found\<close>.
\<close>

theorem empty_clip_list_accepted:
  assumes "opt_prop (opt_prop payload ''data'') ''data'' = JArr []"
    and "task_id_of payload = Inr (JStr j)" and "j \<noteq> []"
  shows "snd (suno_callback payload st) = Send 200 ''OK''
    \<and> resultsStore (fst (suno_callback payload st)) (JStr j) = Some JUndefined
    \<and> subscribers (fst (suno_callback payload st)) (JStr j) = None
    \<and> new_sent st (fst (suno_callback payload st)) =
        map (\<lambda>r. (r, Frame ''complete'' (wrap_clips [])))
          (filter (\<lambda>r. r \<notin> failing st) (listeners st (JStr j)))
    \<and> attach res j (fst (suno_callback payload st)) =
        res_write res (Frame ''complete'' JUndefined) (fst (suno_callback payload st))
    \<and> partition_ids (fst (suno_callback payload st)) [j] ([], []) = ([JUndefined], [])"
proof -
  have t: "truthy (JStr j)" using assms(3) by simp
  have v: "suno_callback payload st =
      (pushSSE (JStr j) ''complete'' (wrap_clips [])
         (st\<lparr>resultsStore := (resultsStore st)(JStr j \<mapsto> JUndefined)\<rparr>), Send 200 ''OK'')"
    using suno_callback_valid [OF assms(1) assms(2) t, of st] by simp
  have s: "new_sent st (fst (suno_callback payload st)) =
        map (\<lambda>r. (r, Frame ''complete'' (wrap_clips [])))
          (filter (\<lambda>r. r \<notin> failing st) (listeners st (JStr j)))"
    unfolding v by (simp add: new_sent_resolve)
  show ?thesis
    using s by (simp add: v pushSSE_resultsStore pushSSE_subscribers attach_def)
qed

theorem empty_clip_list_accepted_witness:
  "opt_prop (opt_prop empty_payload ''data'') ''data'' = JArr []
   \<and> task_id_of empty_payload = Inr (JStr ''j'') \<and> ''j'' \<noteq> []
   \<and> snd (suno_callback empty_payload two_listeners) = Send 200 ''OK''
   \<and> resultsStore (fst (suno_callback empty_payload two_listeners)) (JStr ''j'') = Some JUndefined
   \<and> subscribers (fst (suno_callback empty_payload two_listeners)) (JStr ''j'') = None
   \<and> new_sent two_listeners (fst (suno_callback empty_payload two_listeners)) =
       [(1, Frame ''complete'' (wrap_clips [])), (2, Frame ''complete'' (wrap_clips []))]
   \<and> partition_ids (fst (suno_callback empty_payload two_listeners)) [''j''] ([], []) = ([JUndefined], [])"
proof -
  have c: "opt_prop (opt_prop empty_payload ''data'') ''data'' = JArr []" by code_simp
  have t: "task_id_of empty_payload = Inr (JStr ''j'')" by code_simp
  have n: "''j'' \<noteq> []" by simp
  have l: "listeners two_listeners (JStr ''j'') = [1, 2]" by code_simp
  have f: "failing two_listeners = {}" by code_simp
  show ?thesis
    using empty_clip_list_accepted [OF c t n, of two_listeners] c t l f by simp
qed

end
